theory Spec2Isabelle
  imports Complex_Main "HOL-Library.Char_ord" "HOL-Library.List_Lexorder"
begin

section \<open>Values of the program\<close>

text \<open>
  A day's metrics file is a JSON document, read by \<^verbatim>\<open>json.loads\<close>. The model covers the
  documents of RFC 8259: a number is an integer of any size or a finite real (the literals
  \<^verbatim>\<open>NaN\<close> and \<^verbatim>\<open>Infinity\<close>, an extension of Python's reader, are left out); a string is a
  list of characters with code points below 256; an object is the list of its items, with
  distinct keys as a dict has them, looked up by key.

  Python's \<^verbatim>\<open>float\<close> is modelled by the reals: arithmetic on floats is exact, no result is
  rounded to 53 bits. What a float operation can raise is kept: the conversion of an integer
  too large for a float raises \<^verbatim>\<open>OverflowError\<close>.
\<close>

datatype json =
    JNull
  | JBool bool
  | JInt int
  | JFloat real
  | JStr string
  | JList "json list"
  | JObj "(string \<times> json) list"

datatype error =
    AttributeError
  | TypeError
  | ValueError
  | OverflowError
  | ZeroDivisionError

text \<open>
  The result of \<^verbatim>\<open>float(...)\<close> on a string can be infinite or not a number, so the floats
  that \<^verbatim>\<open>freshness_penalty\<close> collects have their own type.
\<close>

datatype pyfloat = Fin real | PInf | NInf | NaN

subsection \<open>Truth value, attribute \<^verbatim>\<open>get\<close>, iteration\<close>

fun truthy :: "json \<Rightarrow> bool" where
  "truthy JNull = False"
| "truthy (JBool b) = b"
| "truthy (JInt n) = (n \<noteq> 0)"
| "truthy (JFloat r) = (r \<noteq> 0)"
| "truthy (JStr s) = (s \<noteq> [])"
| "truthy (JList xs) = (xs \<noteq> [])"
| "truthy (JObj kvs) = (kvs \<noteq> [])"

text \<open>\<^verbatim>\<open>x.get(k, d)\<close>: only a dict has the method.\<close>

fun dict_get :: "json \<Rightarrow> string \<Rightarrow> json \<Rightarrow> error + json" where
  "dict_get (JObj kvs) k d = Inr (case map_of kvs k of None \<Rightarrow> d | Some v \<Rightarrow> v)"
| "dict_get _ k d = Inl AttributeError"

text \<open>
  \<^verbatim>\<open>for t in x\<close>: a list gives its elements, a string its characters (strings of length
  one), a dict its keys; anything else is not iterable.
\<close>

fun py_iter :: "json \<Rightarrow> error + json list" where
  "py_iter (JList xs) = Inr xs"
| "py_iter (JStr s) = Inr (map (\<lambda>c. JStr [c]) s)"
| "py_iter (JObj kvs) = Inr (map (\<lambda>kv. JStr (fst kv)) kvs)"
| "py_iter _ = Inl TypeError"

text \<open>A loop whose body may raise: the first error ends it.\<close>

fun for_each :: "('a \<Rightarrow> 's \<Rightarrow> error + 's) \<Rightarrow> 'a list \<Rightarrow> 's \<Rightarrow> error + 's" where
  "for_each body [] s = Inr s"
| "for_each body (x # xs) s =
     (case body x s of Inl e \<Rightarrow> Inl e | Inr s' \<Rightarrow> for_each body xs s')"

subsection \<open>Reading numbers from strings\<close>

text \<open>
  The largest float is \<open>2 ^ 1024 - 2 ^ 971\<close>; a number rounds to a finite float when it is
  below \<open>2 ^ 1024 - 2 ^ 970\<close> in size.
\<close>

definition float_limit :: int where
  "float_limit = 2 ^ 1024 - 2 ^ 970"

text \<open>
  What \<^verbatim>\<open>int\<close> and \<^verbatim>\<open>float\<close> skip around a number: the characters 9 to 13, the space,
  and the two spaces of Latin-1, 133 and 160.
\<close>

definition is_space :: "char \<Rightarrow> bool" where
  "is_space c = ((of_char c :: nat) \<in> {9, 10, 11, 12, 13, 32, 133, 160})"

definition strip :: "string \<Rightarrow> string" where
  "strip s = rev (dropWhile is_space (rev (dropWhile is_space s)))"

definition is_digit :: "char \<Rightarrow> bool" where
  "is_digit c = (48 \<le> (of_char c :: nat) \<and> (of_char c :: nat) \<le> 57)"

definition digit_val :: "char \<Rightarrow> int" where
  "digit_val c = int (of_char c) - 48"

definition lower :: "char \<Rightarrow> char" where
  "lower c = (if 65 \<le> (of_char c :: nat) \<and> (of_char c :: nat) \<le> 90
              then char_of ((of_char c :: nat) + 32) else c)"

text \<open>
  Digits with single underscores between them (\<^verbatim>\<open>1_000\<close>); the result is the digits alone.
  The flag says that the character before was a digit.
\<close>

fun digit_part :: "string \<Rightarrow> bool \<Rightarrow> string option" where
  "digit_part [] prev = (if prev then Some [] else None)"
| "digit_part (c # cs) prev =
     (if is_digit c then map_option ((#) c) (digit_part cs True)
      else if c = CHR ''_'' \<and> prev then digit_part cs False
      else None)"

definition digits_val :: "string \<Rightarrow> int" where
  "digits_val ds = foldl (\<lambda>a c. 10 * a + digit_val c) 0 ds"

definition split_sign :: "string \<Rightarrow> bool \<times> string" where
  "split_sign s =
     (case s of
        [] \<Rightarrow> (False, [])
      | c # cs \<Rightarrow> if c = CHR ''-'' then (True, cs) else if c = CHR ''+'' then (False, cs)
                 else (False, s))"

text \<open>
  \<^verbatim>\<open>int(s)\<close> on a string, base 10: white space around, a sign, digits. Python 3.11 refuses
  more than 4300 digits.
\<close>

definition int_of_string :: "string \<Rightarrow> error + int" where
  "int_of_string s =
     (let (neg, body) = split_sign (strip s) in
      case digit_part body False of
        None \<Rightarrow> Inl ValueError
      | Some ds \<Rightarrow>
          if 4300 < length ds then Inl ValueError
          else Inr (if neg then - digits_val ds else digits_val ds))"

text \<open>The part of a string before the first character with \<open>P\<close>, and the part after it.\<close>

definition split_at :: "(char \<Rightarrow> bool) \<Rightarrow> string \<Rightarrow> string \<times> string option" where
  "split_at P s =
     (let b = dropWhile (\<lambda>c. \<not> P c) s
      in (takeWhile (\<lambda>c. \<not> P c) s, if b = [] then None else Some (tl b)))"

definition opt_digits :: "string \<Rightarrow> string option" where
  "opt_digits s = (if s = [] then Some [] else digit_part s False)"

definition exponent :: "string option \<Rightarrow> int option" where
  "exponent ex =
     (case ex of
        None \<Rightarrow> Some 0
      | Some e \<Rightarrow>
          (let (neg, body) = split_sign e in
           case digit_part body False of
             None \<Rightarrow> None
           | Some ds \<Rightarrow> Some (if neg then - digits_val ds else digits_val ds)))"

definition scale10 :: "real \<Rightarrow> int \<Rightarrow> real" where
  "scale10 x e = (if 0 \<le> e then x * 10 ^ nat e else x / 10 ^ nat (- e))"

text \<open>A decimal literal: digits, a point, digits, an exponent; a digit is needed.\<close>

definition decimal :: "string \<Rightarrow> real option" where
  "decimal s =
     (let (mant, ex) = split_at (\<lambda>c. c = CHR ''e'' \<or> c = CHR ''E'') s;
          (ip, fp) = split_at (\<lambda>c. c = CHR ''.'') mant
      in case (opt_digits ip, case fp of None \<Rightarrow> Some [] | Some f \<Rightarrow> opt_digits f, exponent ex) of
           (Some i, Some f, Some x) \<Rightarrow>
             if i = [] \<and> f = [] then None
             else Some (scale10 (real_of_int (digits_val (i @ f))) (x - int (length f)))
         | _ \<Rightarrow> None)"

text \<open>
  \<^verbatim>\<open>float(s)\<close> on a string: white space around, a sign, then \<^verbatim>\<open>inf\<close>, \<^verbatim>\<open>infinity\<close> or
  \<^verbatim>\<open>nan\<close> in any case, or a decimal literal; a literal too large for a float reads as
  infinite.
\<close>

definition float_of_string :: "string \<Rightarrow> error + pyfloat" where
  "float_of_string s =
     (let (neg, body) = split_sign (strip s); word = map lower body in
      if word = ''inf'' \<or> word = ''infinity'' then Inr (if neg then NInf else PInf)
      else if word = ''nan'' then Inr NaN
      else case decimal body of
             None \<Rightarrow> Inl ValueError
           | Some r \<Rightarrow>
               Inr (if r < real_of_int float_limit then Fin (if neg then - r else r)
                    else if neg then NInf else PInf))"

subsection \<open>Conversions\<close>

text \<open>An integer converts to a float when it rounds to a finite one.\<close>

definition int_to_float :: "int \<Rightarrow> error + real" where
  "int_to_float n = (if \<bar>n\<bar> < float_limit then Inr (real_of_int n) else Inl OverflowError)"

text \<open>\<^verbatim>\<open>n / d\<close> on two integers: the quotient, rounded once, has to be a finite float.\<close>

definition int_truediv :: "int \<Rightarrow> int \<Rightarrow> error + real" where
  "int_truediv n d =
     (if d = 0 then Inl ZeroDivisionError
      else if \<bar>real_of_int n / real_of_int d\<bar> < real_of_int float_limit
      then Inr (real_of_int n / real_of_int d)
      else Inl OverflowError)"

text \<open>\<^verbatim>\<open>int(v)\<close>: a float is cut towards zero.\<close>

fun py_int :: "json \<Rightarrow> error + int" where
  "py_int JNull = Inl TypeError"
| "py_int (JBool b) = Inr (if b then 1 else 0)"
| "py_int (JInt n) = Inr n"
| "py_int (JFloat r) = Inr (if 0 \<le> r then \<lfloor>r\<rfloor> else \<lceil>r\<rceil>)"
| "py_int (JStr s) = int_of_string s"
| "py_int (JList xs) = Inl TypeError"
| "py_int (JObj kvs) = Inl TypeError"

fun py_float :: "json \<Rightarrow> error + pyfloat" where
  "py_float JNull = Inl TypeError"
| "py_float (JBool b) = Inr (Fin (if b then 1 else 0))"
| "py_float (JInt n) = (case int_to_float n of Inl e \<Rightarrow> Inl e | Inr r \<Rightarrow> Inr (Fin r))"
| "py_float (JFloat r) = Inr (Fin r)"
| "py_float (JStr s) = float_of_string s"
| "py_float (JList xs) = Inl TypeError"
| "py_float (JObj kvs) = Inl TypeError"

section \<open>Configuration\<close>

record Weights =
  run_success :: real
  tab_completion :: real
  rss_errors :: real
  freshness_weight :: real
  ai_strict_rate :: real
  off_topic_penalty :: real
  duplication_penalty :: real
  host_diversity :: real

text \<open>
  The field \<^verbatim>\<open>freshness_penalty\<close> of the class is \<open>freshness_weight\<close> here, since the function
  of that name keeps it.
\<close>

definition W :: Weights where
  "W = \<lparr> run_success = 12, tab_completion = 12, rss_errors = 10, freshness_weight = 6,
         ai_strict_rate = 25, off_topic_penalty = 15, duplication_penalty = 10,
         host_diversity = 10 \<rparr>"

definition MAX_RSS_ERRORS_FOR_FULL_SCORE :: int where
  "MAX_RSS_ERRORS_FOR_FULL_SCORE = 5"

definition MAX_OFFTOPIC_RATE :: real where
  "MAX_OFFTOPIC_RATE = 20 / 100"

definition MAX_DUP_RATE :: real where
  "MAX_DUP_RATE = 20 / 100"

definition TARGET_HOST_DIVERSITY :: int where
  "TARGET_HOST_DIVERSITY = 10"

definition sum_weights :: "Weights \<Rightarrow> real" where
  "sum_weights w = run_success w + tab_completion w + rss_errors w + freshness_weight w
     + ai_strict_rate w + off_topic_penalty w + duplication_penalty w + host_diversity w"

section \<open>Helpers\<close>

definition clamp :: "real \<Rightarrow> real \<Rightarrow> real \<Rightarrow> real" where
  "clamp x lo hi = max lo (min hi x)"

definition safe_int :: "json \<Rightarrow> int \<Rightarrow> int" where
  "safe_int v dflt = (case py_int v of Inr n \<Rightarrow> n | Inl e \<Rightarrow> dflt)"

definition safe_float :: "json \<Rightarrow> pyfloat \<Rightarrow> pyfloat" where
  "safe_float v dflt = (case py_float v of Inr x \<Rightarrow> x | Inl e \<Rightarrow> dflt)"

definition pct :: "int \<Rightarrow> int \<Rightarrow> error + real" where
  "pct n d = (if 0 < d then int_truediv n d else Inr 0)"

definition avg :: "real list \<Rightarrow> real" where
  "avg vals = (if vals \<noteq> [] then sum_list vals / real (length vals) else 0)"


section \<open>Hosts and freshness\<close>

text \<open>
  The set \<^verbatim>\<open>hosts\<close> holds hashable values, equal when Python's \<^verbatim>\<open>==\<close> says so: a number
  is the same key as a boolean, integer or float of the same value. \<open>hash_key\<close> gives each
  value the representative of its class; a list or a dict is not hashable.
\<close>

fun hash_key :: "json \<Rightarrow> error + json" where
  "hash_key JNull = Inr JNull"
| "hash_key (JBool b) = Inr (JInt (if b then 1 else 0))"
| "hash_key (JInt n) = Inr (JInt n)"
| "hash_key (JFloat r) = Inr (if r = real_of_int \<lfloor>r\<rfloor> then JInt \<lfloor>r\<rfloor> else JFloat r)"
| "hash_key (JStr s) = Inr (JStr s)"
| "hash_key (JList xs) = Inl TypeError"
| "hash_key (JObj kvs) = Inl TypeError"

text \<open>The set as the list of its keys, in the order they came.\<close>

definition set_add :: "json \<Rightarrow> json list \<Rightarrow> error + json list" where
  "set_add v hosts =
     (case hash_key v of
        Inl e \<Rightarrow> Inl e
      | Inr k \<Rightarrow> Inr (if k \<in> set hosts then hosts else hosts @ [k]))"

text \<open>The body of the inner loop of \<^verbatim>\<open>collect_hosts\<close>, for one entry \<open>s\<close>.\<close>

definition add_source :: "json \<Rightarrow> json list \<Rightarrow> error + json list" where
  "add_source s hosts =
     (case dict_get s ''source'' JNull of
        Inl e \<Rightarrow> Inl e
      | Inr v \<Rightarrow> if truthy v then set_add v hosts else Inr hosts)"

text \<open>The body of the outer loop, for one tab \<open>t\<close>.\<close>

definition add_tab_sources :: "json \<Rightarrow> json list \<Rightarrow> error + json list" where
  "add_tab_sources t hosts =
     (case dict_get t ''sources'' (JList []) of
        Inl e \<Rightarrow> Inl e
      | Inr ss \<Rightarrow>
          (case py_iter ss of
             Inl e \<Rightarrow> Inl e
           | Inr sl \<Rightarrow> for_each add_source sl hosts))"

definition host_set :: "json \<Rightarrow> error + json list" where
  "host_set metrics =
     (case dict_get metrics ''tabs'' (JList []) of
        Inl e \<Rightarrow> Inl e
      | Inr ts \<Rightarrow>
          (case py_iter ts of
             Inl e \<Rightarrow> Inl e
           | Inr tabs \<Rightarrow> for_each add_tab_sources tabs []))"

definition collect_hosts :: "json \<Rightarrow> error + int" where
  "collect_hosts metrics =
     (case host_set metrics of Inl e \<Rightarrow> Inl e | Inr hosts \<Rightarrow> Inr (int (length hosts)))"

subsection \<open>Floats that may be infinite\<close>

text \<open>Python's \<^verbatim>\<open>a < b\<close> on floats: false whenever one side is not a number.\<close>

fun f_lt :: "pyfloat \<Rightarrow> pyfloat \<Rightarrow> bool" where
  "f_lt (Fin a) (Fin b) = (a < b)"
| "f_lt (Fin a) PInf = True"
| "f_lt NInf (Fin b) = True"
| "f_lt NInf PInf = True"
| "f_lt _ _ = False"

text \<open>
  \<^verbatim>\<open>max(a, b)\<close> keeps \<open>a\<close> unless \<^verbatim>\<open>b > a\<close>, \<^verbatim>\<open>min(a, b)\<close> keeps \<open>a\<close> unless
  \<^verbatim>\<open>b < a\<close>; \<^verbatim>\<open>max(xs)\<close> goes through the list in the same way.
\<close>

definition f_max :: "pyfloat \<Rightarrow> pyfloat \<Rightarrow> pyfloat" where
  "f_max a b = (if f_lt a b then b else a)"

definition f_min :: "pyfloat \<Rightarrow> pyfloat \<Rightarrow> pyfloat" where
  "f_min a b = (if f_lt b a then b else a)"

definition max_list :: "pyfloat list \<Rightarrow> pyfloat" where
  "max_list xs = foldl f_max (hd xs) (tl xs)"

text \<open>\<^verbatim>\<open>(worst - 24) / 24\<close>.\<close>

fun excess :: "pyfloat \<Rightarrow> pyfloat" where
  "excess (Fin r) = Fin ((r - 24) / 24)"
| "excess PInf = PInf"
| "excess NInf = NInf"
| "excess NaN = NaN"

text \<open>
  \<^verbatim>\<open>clamp(x)\<close> with the bounds 0.0 and 1.0, on a float that may be infinite: by the rule of
  \<^verbatim>\<open>min\<close> and \<^verbatim>\<open>max\<close> above, the result is finite (lemma \<open>clamp_unit_min_max\<close>).
\<close>

fun clamp_unit :: "pyfloat \<Rightarrow> real" where
  "clamp_unit (Fin r) = clamp r 0 1"
| "clamp_unit PInf = 1"
| "clamp_unit NInf = 0"
| "clamp_unit NaN = 1"

text \<open>The body of the loop of \<^verbatim>\<open>freshness_penalty\<close>, for one tab \<open>t\<close>.\<close>

definition add_hours :: "json \<Rightarrow> pyfloat list \<Rightarrow> error + pyfloat list" where
  "add_hours t hours =
     (case dict_get t ''freshnessUsed'' JNull of
        Inl e \<Rightarrow> Inl e
      | Inr h \<Rightarrow>
          if truthy h
          then (case py_float h of Inl e \<Rightarrow> Inl e | Inr x \<Rightarrow> Inr (hours @ [x]))
          else Inr hours)"

definition tab_hours :: "json \<Rightarrow> error + pyfloat list" where
  "tab_hours metrics =
     (case dict_get metrics ''tabs'' (JList []) of
        Inl e \<Rightarrow> Inl e
      | Inr ts \<Rightarrow>
          (case py_iter ts of
             Inl e \<Rightarrow> Inl e
           | Inr tabs \<Rightarrow> for_each add_hours tabs []))"

definition penalty_of_hours :: "pyfloat list \<Rightarrow> real" where
  "penalty_of_hours hours =
     (if hours = [] then 0
      else let over = filter (\<lambda>h. f_lt (Fin 24) h) hours
           in if over = [] then 0 else clamp_unit (excess (max_list over)))"

definition freshness_penalty :: "json \<Rightarrow> error + real" where
  "freshness_penalty metrics =
     (case tab_hours metrics of Inl e \<Rightarrow> Inl e | Inr hours \<Rightarrow> Inr (penalty_of_hours hours))"


section \<open>Scoring\<close>

fun and_then :: "error + 'a \<Rightarrow> ('a \<Rightarrow> error + 'b) \<Rightarrow> error + 'b" where
  "and_then (Inl e) f = Inl e"
| "and_then (Inr x) f = f x"

text \<open>The local variables of \<^verbatim>\<open>score_day\<close>, in three groups, and the dict it returns.\<close>

record counts =
  tabs_total :: int
  thin :: int
  empty_tabs :: int
  rss :: int
  picked :: int
  ai_strict :: int
  off :: int
  dup :: int
  hosts :: int

record rates =
  ai_rate :: real
  off_rate :: real
  dup_rate :: real

record terms =
  s_run :: real
  s_tabs :: real
  s_rss :: real
  s_fresh :: real
  s_ai :: real
  s_off :: real
  s_dup :: real
  s_hosts :: real

record diagnostics =
  tabsTotal :: int
  thinTabs :: int
  noUpdateTabs :: int
  rssErrors :: int
  aiStrictRate :: real
  offTopicRate :: real
  dupRate :: real
  hostCount :: int
  freshnessPenalty :: real

text \<open>
  \<^verbatim>\<open>round(x, 2)\<close>: to the nearest multiple of 0.01, a tie going to the even one. It is
  applied to the exact sum of the terms: where that sum is a tie and the sum of the floats
  is not, the score here and the score of the program are 0.01 apart.
\<close>

definition round2 :: "real \<Rightarrow> real" where
  "round2 x =
     (let y = x * 100; f = \<lfloor>y\<rfloor>; d = y - real_of_int f
      in real_of_int (if d < 1 / 2 then f else if 1 / 2 < d then f + 1
                      else if even f then f else f + 1) / 100)"

text \<open>Lines 122 to 130; \<open>empty_tabs\<close> is the local \<^verbatim>\<open>empty\<close>.\<close>

definition read_counts :: "json \<Rightarrow> error + counts" where
  "read_counts m =
     and_then (dict_get m ''tabsTotal'' JNull) (\<lambda>v1.
     and_then (dict_get m ''thinTabs'' JNull) (\<lambda>v2.
     and_then (dict_get m ''noUpdateTabs'' JNull) (\<lambda>v3.
     and_then (dict_get m ''rssErrors'' JNull) (\<lambda>v4.
     and_then (dict_get m ''pickedItemsTotal'' JNull) (\<lambda>v5.
     and_then (dict_get m ''aiStrictCount'' JNull) (\<lambda>v6.
     and_then (dict_get m ''offTopicCount'' JNull) (\<lambda>v7.
     and_then (dict_get m ''dupCount'' JNull) (\<lambda>v8.
     and_then (dict_get m ''hostCount'' JNull) (\<lambda>v9.
     and_then (if safe_int v9 0 \<noteq> 0 then Inr (safe_int v9 0) else collect_hosts m) (\<lambda>h.
     Inr \<lparr> tabs_total = safe_int v1 0, thin = safe_int v2 0, empty_tabs = safe_int v3 0,
           rss = safe_int v4 0, picked = safe_int v5 0, ai_strict = safe_int v6 0,
           off = safe_int v7 0, dup = safe_int v8 0, hosts = h \<rparr>))))))))))"

text \<open>Lines 132 to 134.\<close>

definition rates_of :: "counts \<Rightarrow> error + rates" where
  "rates_of c =
     and_then (pct (ai_strict c) (picked c)) (\<lambda>a.
     and_then (pct (off c) (picked c)) (\<lambda>b.
     and_then (pct (dup c) (max 1 (picked c))) (\<lambda>d.
     Inr \<lparr> ai_rate = a, off_rate = b, dup_rate = d \<rparr>)))"

text \<open>Line 138: each integer becomes a float where it meets one.\<close>

definition tab_penalty :: "counts \<Rightarrow> error + real" where
  "tab_penalty c =
     (if tabs_total c \<noteq> 0
      then and_then (int_to_float (thin c)) (\<lambda>a.
           and_then (int_to_float (empty_tabs c)) (\<lambda>b.
           and_then (int_to_float (tabs_total c)) (\<lambda>t.
           Inr ((a * (12 / 100) + b * (30 / 100)) / t))))
      else Inr 1)"

text \<open>Lines 137 to 147.\<close>

definition contributions :: "Weights \<Rightarrow> json \<Rightarrow> counts \<Rightarrow> rates \<Rightarrow> error + terms" where
  "contributions w m c r =
     and_then (dict_get m ''runSuccess'' JNull) (\<lambda>ok.
     and_then (tab_penalty c) (\<lambda>pen_tabs.
     and_then (int_truediv (rss c) (MAX_RSS_ERRORS_FOR_FULL_SCORE * 2)) (\<lambda>q.
     and_then (freshness_penalty m) (\<lambda>fp.
     and_then (int_truediv (hosts c) TARGET_HOST_DIVERSITY) (\<lambda>hq.
     Inr \<lparr> s_run = run_success w * (if truthy ok then 1 else 0),
           s_tabs = tab_completion w * clamp (1 - pen_tabs) 0 1,
           s_rss = rss_errors w * clamp (1 - q) 0 1,
           s_fresh = freshness_weight w * (1 - fp),
           s_ai = ai_strict_rate w * ai_rate r,
           s_off = off_topic_penalty w * (1 - clamp (off_rate r / MAX_OFFTOPIC_RATE) 0 1),
           s_dup = duplication_penalty w * (1 - clamp (dup_rate r / MAX_DUP_RATE) 0 1),
           s_hosts = host_diversity w * clamp hq 0 1 \<rparr>)))))"

definition sum_terms :: "terms \<Rightarrow> real" where
  "sum_terms t = s_run t + s_tabs t + s_rss t + s_fresh t + s_ai t + s_off t + s_dup t + s_hosts t"

text \<open>
  \<^verbatim>\<open>score_day\<close> reads the global \<^verbatim>\<open>W\<close>; \<open>score_day_w\<close> takes the weights as an argument.
\<close>

definition score_day_w :: "Weights \<Rightarrow> json \<Rightarrow> error + real \<times> diagnostics" where
  "score_day_w w m =
     and_then (read_counts m) (\<lambda>c.
     and_then (rates_of c) (\<lambda>r.
     and_then (contributions w m c r) (\<lambda>t.
     and_then (freshness_penalty m) (\<lambda>fp.
     Inr (round2 (sum_terms t),
          \<lparr> tabsTotal = tabs_total c, thinTabs = thin c, noUpdateTabs = empty_tabs c,
            rssErrors = rss c, aiStrictRate = ai_rate r, offTopicRate = off_rate r,
            dupRate = dup_rate r, hostCount = hosts c, freshnessPenalty = fp \<rparr>)))))"

definition score_day :: "json \<Rightarrow> error + real \<times> diagnostics" where
  "score_day m = score_day_w W m"

section \<open>Main\<close>

text \<open>A row is \<^verbatim>\<open>{"date": date, "score": score, **dbg}\<close>.\<close>

record scored_day =
  date :: string
  score :: real
  dbg :: diagnostics

definition path_name :: "string \<Rightarrow> string" where
  "path_name p = rev (takeWhile (\<lambda>c. c \<noteq> CHR ''/'') (rev p))"

definition parse_date_from_filename :: "string \<Rightarrow> string option" where
  "parse_date_from_filename p =
     (let name = path_name p in
      if take 8 name = ''metrics-'' \<and> drop (length name - 5) name = ''.json''
      then Some (take (length name - 5 - 8) (drop 8 name))
      else None)"

text \<open>
  The loop of \<^verbatim>\<open>main\<close> over the files: a file is a path and what \<^verbatim>\<open>load_json\<close> returns
  for it (\<open>None\<close> when it cannot be read or parsed).
\<close>

definition add_row :: "string \<times> json option \<Rightarrow> scored_day list \<Rightarrow> error + scored_day list" where
  "add_row file rows =
     (case (parse_date_from_filename (fst file), snd file) of
        (Some d, Some m) \<Rightarrow>
          if d = [] \<or> \<not> truthy m then Inr rows
          else (case score_day m of
                  Inl e \<Rightarrow> Inl e
                | Inr (sc, dg) \<Rightarrow> Inr (rows @ [\<lparr> date = d, score = sc, dbg = dg \<rparr>]))
      | _ \<Rightarrow> Inr rows)"

text \<open>\<^verbatim>\<open>rows[-k:]\<close> and \<^verbatim>\<open>sorted(rows, key=score)[:n]\<close>; \<^verbatim>\<open>main\<close> has 7 for \<open>k\<close>, 3 for \<open>n\<close>.\<close>

definition last_rows :: "nat \<Rightarrow> 'a list \<Rightarrow> 'a list" where
  "last_rows k rows = (if k = 0 then rows else drop (length rows - k) rows)"

definition trailing_avg :: "nat \<Rightarrow> scored_day list \<Rightarrow> real" where
  "trailing_avg k rows = avg (map score (last_rows k rows))"

definition worst_days :: "nat \<Rightarrow> scored_day list \<Rightarrow> scored_day list" where
  "worst_days n rows = take n (sort_key score rows)"

text \<open>
  What \<^verbatim>\<open>main\<close> prints and writes: the message that there are no metrics files, or the
  summary (latest day, 7-day average, worst days) and the rows of the three files.
\<close>

datatype outcome =
    NoMetrics
  | Summary (latest: scored_day) (score7: real) (worst: "scored_day list")
      (written: "scored_day list")

definition summarise :: "scored_day list \<Rightarrow> outcome" where
  "summarise rows0 =
     (if rows0 = [] then NoMetrics
      else let rows = sort_key date rows0
           in Summary (last rows) (trailing_avg 7 rows) (worst_days 3 rows) rows)"

definition main :: "(string \<times> json option) list \<Rightarrow> error + outcome" where
  "main found =
     (case for_each add_row (sort_key fst found) [] of
        Inl e \<Rightarrow> Inl e
      | Inr rows \<Rightarrow> Inr (summarise rows))"


section \<open>The words of the specification\<close>

text \<open>
  The properties below speak of the fields of a record, of its tabs, of the values they
  report. These are total readings of a record: a field that is absent is \<open>JNull\<close>, and only
  a list has items.
\<close>

fun field :: "json \<Rightarrow> string \<Rightarrow> json" where
  "field (JObj kvs) k = (case map_of kvs k of None \<Rightarrow> JNull | Some v \<Rightarrow> v)"
| "field _ k = JNull"

fun items :: "json \<Rightarrow> json list" where
  "items (JList xs) = xs"
| "items _ = []"

fun is_obj :: "json \<Rightarrow> bool" where
  "is_obj (JObj kvs) = True"
| "is_obj _ = False"

text \<open>
  Freshness: the hours that the tabs report, for a record whose tabs are objects with a
  number (one a float can hold, below \<open>2 ^ 1024 - 2 ^ 970\<close> in size), or nothing, as
  \<^verbatim>\<open>freshnessUsed\<close>. A tab reports a value when the number is there and is not zero.
\<close>

fun is_hours :: "json \<Rightarrow> bool" where
  "is_hours JNull = True"
| "is_hours (JInt n) = (\<bar>n\<bar> < 2 ^ 1024 - 2 ^ 970)"
| "is_hours (JFloat r) = True"
| "is_hours _ = False"

fun reported :: "json \<Rightarrow> real option" where
  "reported (JInt n) = (if n = 0 then None else Some (real_of_int n))"
| "reported (JFloat r) = (if r = 0 then None else Some r)"
| "reported _ = None"

definition numeric_tabs :: "json \<Rightarrow> bool" where
  "numeric_tabs m =
     (case m of
        JObj kvs \<Rightarrow>
          (case map_of kvs ''tabs'' of
             None \<Rightarrow> True
           | Some (JList ts) \<Rightarrow>
               list_all (\<lambda>t. is_obj t \<and> is_hours (field t ''freshnessUsed'')) ts
           | Some _ \<Rightarrow> False)
      | _ \<Rightarrow> False)"

definition reported_hours :: "json \<Rightarrow> real list" where
  "reported_hours m =
     List.map_filter reported (map (\<lambda>t. field t ''freshnessUsed'') (items (field m ''tabs'')))"

definition worst_stale :: "real list \<Rightarrow> real" where
  "worst_stale hs = Max (set (filter (\<lambda>h. 24 < h) hs))"

text \<open>
  Hosts: the source identifiers of all the tabs' source lists that are not empty, each
  taken as the key under which a set holds it.
\<close>

definition host_key :: "json \<Rightarrow> json" where
  "host_key v = (case hash_key v of Inr k \<Rightarrow> k | Inl e \<Rightarrow> v)"

definition tab_sources :: "json \<Rightarrow> json list" where
  "tab_sources t =
     filter truthy (map (\<lambda>s. field s ''source'') (items (field t ''sources'')))"

definition source_ids :: "json \<Rightarrow> json set" where
  "source_ids m = set (map host_key (concat (map tab_sources (items (field m ''tabs'')))))"

text \<open>
  The eight terms that \<^verbatim>\<open>score_day\<close> adds up for a record, under their local names.
\<close>

definition score_terms :: "Weights \<Rightarrow> json \<Rightarrow> error + terms" where
  "score_terms w m =
     and_then (read_counts m) (\<lambda>c.
     and_then (rates_of c) (\<lambda>r. contributions w m c r))"

section \<open>Records used as examples\<close>

definition day_full :: json where
  "day_full = JObj [(''runSuccess'', JBool True), (''tabsTotal'', JInt 10),
     (''thinTabs'', JInt 0), (''noUpdateTabs'', JInt 0), (''rssErrors'', JInt 0),
     (''pickedItemsTotal'', JInt 10), (''aiStrictCount'', JInt 10),
     (''offTopicCount'', JInt 0), (''dupCount'', JInt 0), (''hostCount'', JInt 10)]"

definition day_overcounted :: json where
  "day_overcounted = JObj [(''pickedItemsTotal'', JInt 10), (''aiStrictCount'', JInt 30)]"

definition day_text_hours :: json where
  "day_text_hours = JObj [(''tabs'', JList [JObj [(''freshnessUsed'', JStr ''abc'')]])]"

definition day_null_tabs :: json where
  "day_null_tabs = JObj [(''tabs'', JNull)]"

definition day_bad_source :: json where
  "day_bad_source = JObj [(''tabs'', JList [JObj [(''sources'', JList [JInt 1])]])]"

definition day_stale :: json where
  "day_stale = JObj [(''tabs'', JList
     [JObj [(''freshnessUsed'', JInt 30)], JObj [(''name'', JStr ''x'')],
      JObj [(''freshnessUsed'', JFloat 36)], JObj [(''freshnessUsed'', JInt 0)],
      JObj [(''freshnessUsed'', JFloat (25 / 2))]])]"

definition day_long_stale :: json where
  "day_long_stale = JObj [(''tabs'', JList
     [JObj [(''freshnessUsed'', JInt 30)], JObj [(''freshnessUsed'', JInt 240)]])]"

definition day_unpicked :: json where
  "day_unpicked = JObj [(''pickedItemsTotal'', JInt 0), (''aiStrictCount'', JInt 4),
     (''offTopicCount'', JInt 2), (''dupCount'', JInt 3)]"

definition day_sources :: json where
  "day_sources = JObj [(''tabs'', JList
     [JObj [(''sources'', JList [JObj [(''source'', JStr ''a.com'')],
                                 JObj [(''source'', JStr ''b.com'')]])],
      JObj [(''sources'', JList [JObj [(''source'', JStr ''a.com'')],
                                 JObj [(''source'', JStr [])]])]])]"

definition day_said_false :: json where
  "day_said_false = JObj [(''runSuccess'', JStr ''false'')]"

definition day_duplicates :: json where
  "day_duplicates = JObj [(''pickedItemsTotal'', JInt 0), (''dupCount'', JInt 5)]"

definition blank :: diagnostics where
  "blank = \<lparr> tabsTotal = 0, thinTabs = 0, noUpdateTabs = 0, rssErrors = 0,
              aiStrictRate = 0, offTopicRate = 0, dupRate = 0, hostCount = 0,
              freshnessPenalty = 0 \<rparr>"

definition day :: "string \<Rightarrow> real \<Rightarrow> scored_day" where
  "day d s = \<lparr> date = d, score = s, dbg = blank \<rparr>"

definition four_days :: "scored_day list" where
  "four_days = [day ''2024-01-01'' 10, day ''2024-01-02'' 90, day ''2024-01-03'' 10,
                day ''2024-01-04'' 50]"

section \<open>Auxiliary facts\<close>

lemma and_then_Inr: "and_then x f = Inr y \<longleftrightarrow> (\<exists>a. x = Inr a \<and> f a = Inr y)"
  by (cases x) simp_all

lemma clamp_unit_interval: "0 \<le> clamp x 0 1 \<and> clamp x 0 1 \<le> 1"
  by (simp add: clamp_def)

lemma round2_lower: "0 \<le> x \<Longrightarrow> 0 \<le> round2 x"
  by (simp add: round2_def Let_def)

lemma round2_upper: "round2 x \<le> x + 1 / 200"
proof -
  define y where "y = x * 100"
  define f where "f = \<lfloor>y\<rfloor>"
  define n where "n = (if y - real_of_int f < 1 / 2 then f
                       else if 1 / 2 < y - real_of_int f then f + 1
                       else if even f then f else f + 1)"
  have fy: "real_of_int f \<le> y" "y < real_of_int f + 1"
    unfolding f_def by linarith+
  have "real_of_int n \<le> y + 1 / 2"
    using fy by (auto simp: n_def split: if_splits)
  moreover have "round2 x = real_of_int n / 100"
    by (simp add: round2_def Let_def n_def f_def y_def)
  ultimately show ?thesis by (simp add: y_def)
qed

text \<open>The table of \<open>clamp_unit\<close> is what \<^verbatim>\<open>max(0.0, min(1.0, x))\<close> gives.\<close>

lemma clamp_unit_min_max: "Fin (clamp_unit x) = f_max (Fin 0) (f_min (Fin 1) x)"
  by (cases x) (auto simp: f_max_def f_min_def clamp_def)

lemma clamp_unit_range: "0 \<le> clamp_unit x \<and> clamp_unit x \<le> 1"
  by (cases x) (simp_all add: clamp_def)

lemma penalty_of_hours_range: "0 \<le> penalty_of_hours hs \<and> penalty_of_hours hs \<le> 1"
  using clamp_unit_range by (simp add: penalty_of_hours_def Let_def)

lemma freshness_penalty_range: "freshness_penalty m = Inr p \<Longrightarrow> 0 \<le> p \<and> p \<le> 1"
  using penalty_of_hours_range by (auto simp: freshness_penalty_def split: sum.splits)

lemma weighted_unit:
  "0 \<le> (w::real) \<Longrightarrow> 0 \<le> u \<Longrightarrow> u \<le> 1 \<Longrightarrow> 0 \<le> w * u \<and> w * u \<le> w"
  by (simp add: mult_left_le)

lemma weighted_counter:
  "0 \<le> (w::real) \<Longrightarrow> 0 \<le> u \<Longrightarrow> u \<le> 1 \<Longrightarrow> 0 \<le> w * (1 - u) \<and> w * (1 - u) \<le> w"
  using weighted_unit [of w "1 - u"] by simp

lemma contributions_Inr:
  assumes "contributions w m c r = Inr t"
  obtains ok pen_tabs q fp hq where
    "dict_get m ''runSuccess'' JNull = Inr ok"
    "tab_penalty c = Inr pen_tabs"
    "int_truediv (rss c) (MAX_RSS_ERRORS_FOR_FULL_SCORE * 2) = Inr q"
    "freshness_penalty m = Inr fp"
    "int_truediv (hosts c) TARGET_HOST_DIVERSITY = Inr hq"
    "s_run t = run_success w * (if truthy ok then 1 else 0)"
    "s_tabs t = tab_completion w * clamp (1 - pen_tabs) 0 1"
    "s_rss t = rss_errors w * clamp (1 - q) 0 1"
    "s_fresh t = freshness_weight w * (1 - fp)"
    "s_ai t = ai_strict_rate w * ai_rate r"
    "s_off t = off_topic_penalty w * (1 - clamp (off_rate r / MAX_OFFTOPIC_RATE) 0 1)"
    "s_dup t = duplication_penalty w * (1 - clamp (dup_rate r / MAX_DUP_RATE) 0 1)"
    "s_hosts t = host_diversity w * clamp hq 0 1"
  using assms unfolding contributions_def and_then_Inr by fastforce

lemma score_day_w_Inr:
  assumes "score_day_w w m = Inr (s, d)"
  obtains c r t fp where
    "read_counts m = Inr c" "rates_of c = Inr r" "contributions w m c r = Inr t"
    "freshness_penalty m = Inr fp" "s = round2 (sum_terms t)"
    "d = \<lparr> tabsTotal = tabs_total c, thinTabs = thin c, noUpdateTabs = empty_tabs c,
            rssErrors = rss c, aiStrictRate = ai_rate r, offTopicRate = off_rate r,
            dupRate = dup_rate r, hostCount = hosts c, freshnessPenalty = fp \<rparr>"
  using assms unfolding score_day_w_def and_then_Inr by fastforce

lemma sum_terms_range:
  assumes t: "contributions w m c r = Inr t"
    and w: "0 \<le> run_success w" "0 \<le> tab_completion w" "0 \<le> rss_errors w"
      "0 \<le> freshness_weight w" "0 \<le> ai_strict_rate w" "0 \<le> off_topic_penalty w"
      "0 \<le> duplication_penalty w" "0 \<le> host_diversity w"
    and a: "0 \<le> ai_rate r" "ai_rate r \<le> 1"
  shows "0 \<le> sum_terms t \<and> sum_terms t \<le> sum_weights w"
proof -
  from t obtain ok pen_tabs q fp hq where
    fp: "freshness_penalty m = Inr fp" and
    f: "s_run t = run_success w * (if truthy ok then 1 else 0)"
    "s_tabs t = tab_completion w * clamp (1 - pen_tabs) 0 1"
    "s_rss t = rss_errors w * clamp (1 - q) 0 1"
    "s_fresh t = freshness_weight w * (1 - fp)"
    "s_ai t = ai_strict_rate w * ai_rate r"
    "s_off t = off_topic_penalty w * (1 - clamp (off_rate r / MAX_OFFTOPIC_RATE) 0 1)"
    "s_dup t = duplication_penalty w * (1 - clamp (dup_rate r / MAX_DUP_RATE) 0 1)"
    "s_hosts t = host_diversity w * clamp hq 0 1"
    by (rule contributions_Inr)
  have 1: "0 \<le> s_run t \<and> s_run t \<le> run_success w"
    using w(1) by (simp add: f)
  have 2: "0 \<le> s_tabs t \<and> s_tabs t \<le> tab_completion w"
    unfolding f using w(2) clamp_unit_interval by (intro weighted_unit) auto
  have 3: "0 \<le> s_rss t \<and> s_rss t \<le> rss_errors w"
    unfolding f using w(3) clamp_unit_interval by (intro weighted_unit) auto
  have 4: "0 \<le> s_fresh t \<and> s_fresh t \<le> freshness_weight w"
    unfolding f using w(4) freshness_penalty_range [OF fp] by (intro weighted_counter) auto
  have 5: "0 \<le> s_ai t \<and> s_ai t \<le> ai_strict_rate w"
    unfolding f using w(5) a by (intro weighted_unit) auto
  have 6: "0 \<le> s_off t \<and> s_off t \<le> off_topic_penalty w"
    unfolding f using w(6) clamp_unit_interval by (intro weighted_counter) auto
  have 7: "0 \<le> s_dup t \<and> s_dup t \<le> duplication_penalty w"
    unfolding f using w(7) clamp_unit_interval by (intro weighted_counter) auto
  have 8: "0 \<le> s_hosts t \<and> s_hosts t \<le> host_diversity w"
    unfolding f using w(8) clamp_unit_interval by (intro weighted_unit) auto
  show ?thesis
    unfolding sum_terms_def sum_weights_def using 1 2 3 4 5 6 7 8 by linarith
qed

section \<open>The score and the sum of the weights\<close>

text \<open>
  C1, as the code has it. The score of a record is not always between 0 and the sum of the
  weights: the AI-strict rate is the quotient of two counts read from the record, nothing
  keeps the first below the second, and the rate enters the score without a clamp. What
  holds: whenever \<^verbatim>\<open>score_day\<close> returns, the weights are not negative and the AI-strict
  rate it reports lies between 0 and 1, the score is at least 0 and at most the sum of the
  eight weights plus 0.01 (the rounding adds at most 0.005).
\<close>

theorem score_day_within_weights:
  assumes "score_day_w w m = Inr (s, d)"
    and "0 \<le> run_success w" "0 \<le> tab_completion w" "0 \<le> rss_errors w"
      "0 \<le> freshness_weight w" "0 \<le> ai_strict_rate w" "0 \<le> off_topic_penalty w"
      "0 \<le> duplication_penalty w" "0 \<le> host_diversity w"
    and "0 \<le> aiStrictRate d" "aiStrictRate d \<le> 1"
  shows "0 \<le> s \<and> s \<le> sum_weights w + 1 / 100"
proof -
  from assms(1) obtain c r t fp where
    t: "contributions w m c r = Inr t" and s: "s = round2 (sum_terms t)"
    and d: "d = \<lparr> tabsTotal = tabs_total c, thinTabs = thin c, noUpdateTabs = empty_tabs c,
            rssErrors = rss c, aiStrictRate = ai_rate r, offTopicRate = off_rate r,
            dupRate = dup_rate r, hostCount = hosts c, freshnessPenalty = fp \<rparr>"
    by (rule score_day_w_Inr)
  have a: "0 \<le> ai_rate r" "ai_rate r \<le> 1"
    using assms(10,11) by (simp_all add: d)
  have "0 \<le> sum_terms t \<and> sum_terms t \<le> sum_weights w"
    using t assms(2-9) a by (rule sum_terms_range)
  then show ?thesis
    using round2_lower [of "sum_terms t"] round2_upper [of "sum_terms t"] by (simp add: s)
qed

text \<open>The record of the specification's end-to-end example scores 100 of 100.\<close>

theorem score_day_within_weights_witness:
  "score_day_w W day_full =
     Inr (100, \<lparr> tabsTotal = 10, thinTabs = 0, noUpdateTabs = 0, rssErrors = 0,
                 aiStrictRate = 1, offTopicRate = 0, dupRate = 0, hostCount = 10,
                 freshnessPenalty = 0 \<rparr>)
   \<and> (0::real) \<le> 100 \<and> (100::real) \<le> sum_weights W + 1 / 100"
proof -
  let ?d = "\<lparr> tabsTotal = 10, thinTabs = 0, noUpdateTabs = 0, rssErrors = 0,
              aiStrictRate = 1, offTopicRate = 0, dupRate = 0, hostCount = 10,
              freshnessPenalty = 0 \<rparr>"
  have e: "score_day_w W day_full = Inr (100, ?d)"
    by code_simp
  have w: "0 \<le> run_success W" "0 \<le> tab_completion W" "0 \<le> rss_errors W"
    "0 \<le> freshness_weight W" "0 \<le> ai_strict_rate W" "0 \<le> off_topic_penalty W"
    "0 \<le> duplication_penalty W" "0 \<le> host_diversity W"
    by (simp_all add: W_def)
  have a: "0 \<le> aiStrictRate ?d" "aiStrictRate ?d \<le> 1"
    by simp_all
  from score_day_within_weights [OF e w a] e show ?thesis
    by simp
qed

text \<open>
  Thirty AI-strict items among ten picked ones: the rate is 3, its term 75, and the score
  116, above the sum of the weights, 100.
\<close>

theorem score_day_above_weights:
  "score_day_w W day_overcounted =
     Inr (116, \<lparr> tabsTotal = 0, thinTabs = 0, noUpdateTabs = 0, rssErrors = 0,
                 aiStrictRate = 3, offTopicRate = 0, dupRate = 0, hostCount = 0,
                 freshnessPenalty = 0 \<rparr>)
   \<and> score_day day_overcounted = score_day_w W day_overcounted
   \<and> 0 \<le> run_success W \<and> 0 \<le> tab_completion W \<and> 0 \<le> rss_errors W
   \<and> 0 \<le> freshness_weight W \<and> 0 \<le> ai_strict_rate W \<and> 0 \<le> off_topic_penalty W
   \<and> 0 \<le> duplication_penalty W \<and> 0 \<le> host_diversity W
   \<and> sum_weights W + 1 / 100 < 116
   \<and> 0 \<le> safe_int (field day_overcounted ''aiStrictCount'') 0
   \<and> 0 \<le> safe_int (field day_overcounted ''pickedItemsTotal'') 0"
proof -
  have "score_day_w W day_overcounted =
     Inr (116, \<lparr> tabsTotal = 0, thinTabs = 0, noUpdateTabs = 0, rssErrors = 0,
                 aiStrictRate = 3, offTopicRate = 0, dupRate = 0, hostCount = 0,
                 freshnessPenalty = 0 \<rparr>)"
    by code_simp
  then show ?thesis
    by (simp add: score_day_def W_def sum_weights_def day_overcounted_def safe_int_def)
qed

section \<open>Inputs that raise\<close>

text \<open>
  C2. \<^verbatim>\<open>score_day\<close> does not return for every record. The counts at the top of a record go
  through \<^verbatim>\<open>safe_int\<close>, but \<^verbatim>\<open>freshness_penalty\<close> calls \<^verbatim>\<open>float\<close> itself, not
  \<^verbatim>\<open>safe_float\<close>, and neither it nor \<^verbatim>\<open>collect_hosts\<close> checks what the tabs are: hours
  given as a text raise \<^verbatim>\<open>ValueError\<close>, tabs that are \<^verbatim>\<open>null\<close> raise \<^verbatim>\<open>TypeError\<close>, a
  source entry that is a number raises \<^verbatim>\<open>AttributeError\<close>, and \<^verbatim>\<open>main\<close> stops with the
  error of the first such file.
\<close>

theorem score_day_raises:
  "score_day day_text_hours = Inl ValueError
   \<and> score_day day_null_tabs = Inl TypeError
   \<and> score_day day_bad_source = Inl AttributeError
   \<and> main [(''metrics-2024-01-01.json'', Some day_full),
            (''metrics-2024-01-02.json'', Some day_text_hours)] = Inl ValueError"
  by code_simp

section \<open>The freshness penalty\<close>

lemma dict_get_field: "is_obj m \<Longrightarrow> dict_get m k JNull = Inr (field m k)"
  by (cases m) simp_all

lemma add_hours_numeric:
  assumes "is_obj t" "is_hours (field t ''freshnessUsed'')"
  shows "add_hours t hs =
    Inr (hs @ map Fin (List.map_filter reported [field t ''freshnessUsed'']))"
  using assms
  by (cases "field t ''freshnessUsed''")
    (simp_all add: add_hours_def dict_get_field int_to_float_def float_limit_def
      map_filter_simps)

lemma for_each_add_hours:
  "list_all (\<lambda>t. is_obj t \<and> is_hours (field t ''freshnessUsed'')) ts \<Longrightarrow>
   for_each add_hours ts hs =
     Inr (hs @ map Fin (List.map_filter reported (map (\<lambda>t. field t ''freshnessUsed'') ts)))"
proof (induction ts arbitrary: hs)
  case Nil
  then show ?case by (simp add: map_filter_simps)
next
  case (Cons t ts)
  then show ?case
    by (simp add: add_hours_numeric map_filter_simps split: option.splits)
qed

lemma tab_hours_numeric:
  assumes "numeric_tabs m"
  shows "tab_hours m = Inr (map Fin (reported_hours m))"
proof -
  from assms obtain kvs where m: "m = JObj kvs"
    by (cases m) (simp_all add: numeric_tabs_def)
  show ?thesis
  proof (cases "map_of kvs ''tabs''")
    case None
    then show ?thesis by (simp add: m tab_hours_def reported_hours_def map_filter_simps)
  next
    case (Some v)
    with assms m obtain ts where v: "v = JList ts"
      and ts: "list_all (\<lambda>t. is_obj t \<and> is_hours (field t ''freshnessUsed'')) ts"
      by (cases v) (simp_all add: numeric_tabs_def)
    show ?thesis
      using for_each_add_hours [OF ts, of "[]"] Some
      by (simp add: m v tab_hours_def reported_hours_def)
  qed
qed

lemma foldl_f_max_Fin: "foldl f_max (Fin a) (map Fin xs) = Fin (Max (set (a # xs)))"
proof (induction xs arbitrary: a)
  case Nil
  then show ?case by simp
next
  case (Cons x xs)
  have "f_max (Fin a) (Fin x) = Fin (max a x)"
    by (simp add: f_max_def max_def)
  then have "foldl f_max (Fin a) (map Fin (x # xs)) = Fin (Max (set (max a x # xs)))"
    by (simp add: Cons.IH)
  also have "Max (set (max a x # xs)) = Max (set (a # x # xs))"
    by (cases "xs = []") (simp_all add: max.assoc)
  finally show ?case .
qed

lemma max_list_Fin: "xs \<noteq> [] \<Longrightarrow> max_list (map Fin xs) = Fin (Max (set xs))"
  using foldl_f_max_Fin [of "hd xs" "tl xs"]
  by (cases xs) (simp_all add: max_list_def)

lemma filter_over_Fin:
  "filter (\<lambda>h. f_lt (Fin 24) h) (map Fin hs) = map Fin (filter (\<lambda>h. 24 < h) hs)"
  by (induction hs) simp_all

lemma penalty_of_hours_Fin:
  "penalty_of_hours (map Fin hs) =
     (if hs = [] then 0 else if \<forall>h \<in> set hs. h \<le> 24 then 0
      else max 0 (min 1 ((worst_stale hs - 24) / 24)))"
proof (cases "filter (\<lambda>h. 24 < h) hs = []")
  case True
  then have "\<forall>h \<in> set hs. h \<le> 24"
    by (auto simp: filter_empty_conv)
  with True show ?thesis
    by (simp add: penalty_of_hours_def filter_over_Fin)
next
  case False
  then have n: "(\<forall>h \<in> set hs. h \<le> 24) = False" "(hs = []) = False"
    by (auto simp: filter_empty_conv not_le)
  have "penalty_of_hours (map Fin hs) = max 0 (min 1 ((worst_stale hs - 24) / 24))"
    using False n(2)
    by (simp add: penalty_of_hours_def filter_over_Fin max_list_Fin worst_stale_def Let_def
        clamp_def)
  then show ?thesis
    unfolding n if_False .
qed

text \<open>
  C3. For a record whose tabs report numbers: the freshness penalty is 0 when no tab reports
  a value that is neither null nor zero, and 0 when no reported value is above 24;
  otherwise it is (worst - 24) / 24 brought into [0, 1], that is the larger of 0 and of the
  smaller of 1 and (worst - 24) / 24, where worst is the largest of the reported values above
  24. Whatever the tabs report, a penalty that is returned lies between 0 and 1. One tab that
  reports 48 gives the penalty 1, and so does one that reports 72 or 240; one that reports 30
  gives a quarter.
\<close>

theorem freshness_penalty_worst_stale:
  "(numeric_tabs m \<longrightarrow>
      freshness_penalty m =
        Inr (if reported_hours m = [] then 0
             else if \<forall>h \<in> set (reported_hours m). h \<le> 24 then 0
             else max 0 (min 1 ((worst_stale (reported_hours m) - 24) / 24))))
   \<and> (freshness_penalty m = Inr p \<longrightarrow> 0 \<le> p \<and> p \<le> 1)
   \<and> freshness_penalty (JObj [(''tabs'', JList [JObj [(''freshnessUsed'', JInt 48)]])]) = Inr 1
   \<and> freshness_penalty (JObj [(''tabs'', JList [JObj [(''freshnessUsed'', JInt 72)]])]) = Inr 1
   \<and> freshness_penalty (JObj [(''tabs'', JList [JObj [(''freshnessUsed'', JInt 240)]])]) = Inr 1
   \<and> freshness_penalty (JObj [(''tabs'', JList [JObj [(''freshnessUsed'', JInt 30)]])])
       = Inr (1 / 4)"
proof (intro conjI)
  show "numeric_tabs m \<longrightarrow>
      freshness_penalty m =
        Inr (if reported_hours m = [] then 0
             else if \<forall>h \<in> set (reported_hours m). h \<le> 24 then 0
             else max 0 (min 1 ((worst_stale (reported_hours m) - 24) / 24)))"
    by (simp add: freshness_penalty_def tab_hours_numeric penalty_of_hours_Fin)
  show "freshness_penalty m = Inr p \<longrightarrow> 0 \<le> p \<and> p \<le> 1"
    using freshness_penalty_range [of m p] by blast
  show "freshness_penalty (JObj [(''tabs'', JList [JObj [(''freshnessUsed'', JInt 48)]])]) = Inr 1"
    by code_simp
  show "freshness_penalty (JObj [(''tabs'', JList [JObj [(''freshnessUsed'', JInt 72)]])]) = Inr 1"
    by code_simp
  show "freshness_penalty (JObj [(''tabs'', JList [JObj [(''freshnessUsed'', JInt 240)]])]) = Inr 1"
    by code_simp
  show "freshness_penalty (JObj [(''tabs'', JList [JObj [(''freshnessUsed'', JInt 30)]])])
       = Inr (1 / 4)"
    by code_simp
qed

text \<open>
  Tabs reporting 30, nothing, 36.0, 0 and 12.5: the worst is 36, the penalty one half.
  Tabs reporting 30 and 240: the worst is 240, nine days past the limit, and the penalty is 1.
\<close>

theorem freshness_penalty_worst_stale_witness:
  "numeric_tabs day_stale \<and> reported_hours day_stale = [30, 36, 25 / 2]
   \<and> worst_stale (reported_hours day_stale) = 36
   \<and> freshness_penalty day_stale = Inr (1 / 2)
   \<and> numeric_tabs day_long_stale \<and> reported_hours day_long_stale = [30, 240]
   \<and> worst_stale (reported_hours day_long_stale) = 240
   \<and> (worst_stale (reported_hours day_long_stale) - 24) / 24 = 9
   \<and> freshness_penalty day_long_stale = Inr 1"
proof -
  have n: "numeric_tabs day_stale"
    by code_simp
  have r: "reported_hours day_stale = [30, 36, 25 / 2]"
    by code_simp
  have w: "worst_stale [30, 36, 25 / 2] = 36"
    by (simp add: worst_stale_def)
  from freshness_penalty_worst_stale [of day_stale] n
  have p: "freshness_penalty day_stale = Inr (1 / 2)"
    by (simp add: r w)
  have n': "numeric_tabs day_long_stale"
    by code_simp
  have r': "reported_hours day_long_stale = [30, 240]"
    by code_simp
  have w': "worst_stale [30, 240] = 240"
    by (simp add: worst_stale_def)
  from freshness_penalty_worst_stale [of day_long_stale] n'
  have p': "freshness_penalty day_long_stale = Inr 1"
    by (simp add: r' w')
  from n r w p n' r' w' p' show ?thesis by simp
qed

section \<open>Rates\<close>

lemma read_counts_obj: "read_counts m = Inr c \<Longrightarrow> is_obj m"
  by (cases m) (simp_all add: read_counts_def)

lemma read_counts_Inr:
  assumes "read_counts m = Inr c"
  shows "picked c = safe_int (field m ''pickedItemsTotal'') 0"
    and "ai_strict c = safe_int (field m ''aiStrictCount'') 0"
    and "off c = safe_int (field m ''offTopicCount'') 0"
    and "dup c = safe_int (field m ''dupCount'') 0"
    and "safe_int (field m ''hostCount'') 0 = 0 \<Longrightarrow> collect_hosts m = Inr (hosts c)"
    and "safe_int (field m ''hostCount'') 0 \<noteq> 0 \<Longrightarrow> hosts c = safe_int (field m ''hostCount'') 0"
  using assms read_counts_obj [OF assms]
  by (auto simp: read_counts_def dict_get_field and_then_Inr split: if_splits)

lemma pct_nonpositive: "d \<le> 0 \<Longrightarrow> pct n d = Inr 0"
  by (simp add: pct_def)

lemma rates_of_Inr:
  assumes "rates_of c = Inr r"
  shows "pct (ai_strict c) (picked c) = Inr (ai_rate r)"
    and "pct (off c) (picked c) = Inr (off_rate r)"
    and "pct (dup c) (max 1 (picked c)) = Inr (dup_rate r)"
  using assms by (auto simp: rates_of_def and_then_Inr)

lemma pct_positive: "0 < d \<Longrightarrow> pct n d = Inr q \<Longrightarrow> q = real_of_int n / real_of_int d"
  by (auto simp: pct_def int_truediv_def split: if_splits)

text \<open>
  C4. \<^verbatim>\<open>pct\<close> gives 0.0, and no error, when the denominator is 0 or less; so whenever
  \<^verbatim>\<open>score_day\<close> returns for a record whose \<^verbatim>\<open>pickedItemsTotal\<close> (as \<^verbatim>\<open>safe_int\<close> reads
  it) is 0 or less, \<^verbatim>\<open>aiStrictRate\<close> and \<^verbatim>\<open>offTopicRate\<close> are 0. \<^verbatim>\<open>dupRate\<close> is
  \<^verbatim>\<open>dupCount\<close> divided by the larger of 1 and \<^verbatim>\<open>pickedItemsTotal\<close>, so it is \<^verbatim>\<open>dupCount\<close>
  itself when \<^verbatim>\<open>pickedItemsTotal\<close> is 0.
\<close>

theorem rates_zero_denominator:
  assumes "score_day_w w m = Inr (s, dg)"
  shows "(safe_int (field m ''pickedItemsTotal'') 0 \<le> 0 \<longrightarrow>
            pct (safe_int (field m ''aiStrictCount'') 0) (safe_int (field m ''pickedItemsTotal'') 0) = Inr 0
          \<and> pct (safe_int (field m ''offTopicCount'') 0) (safe_int (field m ''pickedItemsTotal'') 0) = Inr 0
          \<and> aiStrictRate dg = 0 \<and> offTopicRate dg = 0)
       \<and> dupRate dg = real_of_int (safe_int (field m ''dupCount'') 0)
                        / real_of_int (max 1 (safe_int (field m ''pickedItemsTotal'') 0))
       \<and> (safe_int (field m ''pickedItemsTotal'') 0 = 0 \<longrightarrow>
            dupRate dg = real_of_int (safe_int (field m ''dupCount'') 0))"
proof -
  from assms obtain c r t fp where
    c: "read_counts m = Inr c" and r: "rates_of c = Inr r"
    and d: "dg = \<lparr> tabsTotal = tabs_total c, thinTabs = thin c, noUpdateTabs = empty_tabs c,
            rssErrors = rss c, aiStrictRate = ai_rate r, offTopicRate = off_rate r,
            dupRate = dup_rate r, hostCount = hosts c, freshnessPenalty = fp \<rparr>"
    by (rule score_day_w_Inr)
  note f = read_counts_Inr(1-4) [OF c, symmetric]
  have zero: "picked c \<le> 0 \<Longrightarrow> ai_rate r = 0 \<and> off_rate r = 0"
    using rates_of_Inr(1,2) [OF r] by (simp add: pct_nonpositive)
  have "dup_rate r = real_of_int (dup c) / real_of_int (max 1 (picked c))"
    using rates_of_Inr(3) [OF r] by (intro pct_positive) auto
  then show ?thesis
    using zero by (simp add: d f pct_nonpositive)
qed

text \<open>No picked items, four AI-strict ones, two off topic, three duplicates.\<close>

theorem rates_zero_denominator_witness:
  "score_day_w W day_unpicked =
     Inr (31, \<lparr> tabsTotal = 0, thinTabs = 0, noUpdateTabs = 0, rssErrors = 0,
                aiStrictRate = 0, offTopicRate = 0, dupRate = 3, hostCount = 0,
                freshnessPenalty = 0 \<rparr>)
   \<and> safe_int (field day_unpicked ''pickedItemsTotal'') 0 = 0
   \<and> safe_int (field day_unpicked ''aiStrictCount'') 0 = 4
   \<and> safe_int (field day_unpicked ''dupCount'') 0 = 3
   \<and> pct 4 0 = Inr 0"
proof -
  have e: "score_day_w W day_unpicked =
     Inr (31, \<lparr> tabsTotal = 0, thinTabs = 0, noUpdateTabs = 0, rssErrors = 0,
                aiStrictRate = 0, offTopicRate = 0, dupRate = 3, hostCount = 0,
                freshnessPenalty = 0 \<rparr>)"
    by code_simp
  have f: "safe_int (field day_unpicked ''pickedItemsTotal'') 0 = 0"
    "safe_int (field day_unpicked ''aiStrictCount'') 0 = 4"
    "safe_int (field day_unpicked ''dupCount'') 0 = 3"
    by (simp_all add: day_unpicked_def safe_int_def)
  from rates_zero_denominator [OF e] e f show ?thesis
    by simp
qed

section \<open>The host count\<close>

lemma set_add_Inr:
  assumes "set_add v hs = Inr hs'"
  shows "set hs' = insert (host_key v) (set hs)" and "distinct hs \<Longrightarrow> distinct hs'"
  using assms by (auto simp: set_add_def host_key_def split: sum.splits if_splits)

lemma add_source_Inr:
  assumes "add_source s hs = Inr hs'"
  shows "is_obj s"
    and "set hs' = set hs \<union> set (map host_key (filter truthy [field s ''source'']))"
    and "distinct hs \<Longrightarrow> distinct hs'"
proof -
  from assms show o: "is_obj s"
    by (cases s) (simp_all add: add_source_def)
  from assms o show "set hs' = set hs \<union> set (map host_key (filter truthy [field s ''source'']))"
    by (auto simp: add_source_def dict_get_field dest: set_add_Inr(1) split: if_splits)
  from assms o show "distinct hs \<Longrightarrow> distinct hs'"
    by (auto simp: add_source_def dict_get_field dest: set_add_Inr(2) split: if_splits)
qed

lemma for_each_add_source:
  "for_each add_source sl hs = Inr hs' \<Longrightarrow>
     list_all is_obj sl
     \<and> set hs' = set hs \<union> set (map host_key (filter truthy (map (\<lambda>s. field s ''source'') sl)))
     \<and> (distinct hs \<longrightarrow> distinct hs')"
proof (induction sl arbitrary: hs)
  case Nil
  then show ?case by simp
next
  case (Cons s sl)
  from Cons.prems obtain h1 where 1: "add_source s hs = Inr h1"
    and 2: "for_each add_source sl h1 = Inr hs'"
    by (auto split: sum.splits)
  from add_source_Inr [OF 1] Cons.IH [OF 2] show ?case
    by auto
qed

lemma py_iter_objs:
  assumes "py_iter x = Inr xs" "list_all is_obj xs"
  shows "items x = xs"
proof (cases x)
  case (JStr s)
  with assms show ?thesis by (cases s) auto
next
  case (JObj kvs)
  with assms show ?thesis by (cases kvs) auto
qed (use assms in auto)

lemma dict_get_items:
  assumes "dict_get t k (JList []) = Inr x" "py_iter x = Inr xs" "list_all is_obj xs"
  shows "items (field t k) = xs"
proof -
  from assms(1) obtain kvs where t: "t = JObj kvs"
    by (cases t) simp_all
  show ?thesis
  proof (cases "map_of kvs k")
    case None
    with assms(1,2) show ?thesis by (auto simp: t)
  next
    case (Some v)
    with assms(1) have "x = v" by (simp add: t)
    with py_iter_objs [OF assms(2,3)] Some show ?thesis by (simp add: t)
  qed
qed

lemma add_tab_sources_Inr:
  assumes "add_tab_sources t hs = Inr hs'"
  shows "is_obj t \<and> set hs' = set hs \<union> set (map host_key (tab_sources t))
    \<and> (distinct hs \<longrightarrow> distinct hs')"
proof -
  from assms obtain ss sl where g: "dict_get t ''sources'' (JList []) = Inr ss"
    and i: "py_iter ss = Inr sl" and f: "for_each add_source sl hs = Inr hs'"
    by (auto simp: add_tab_sources_def split: sum.splits)
  from for_each_add_source [OF f] have o: "list_all is_obj sl"
    and s: "set hs' = set hs \<union> set (map host_key (filter truthy (map (\<lambda>s. field s ''source'') sl)))"
    and d: "distinct hs \<longrightarrow> distinct hs'"
    by simp_all
  have "items (field t ''sources'') = sl"
    using g i o by (rule dict_get_items)
  moreover from g have "is_obj t" by (cases t) simp_all
  ultimately show ?thesis
    using s d by (simp add: tab_sources_def)
qed

lemma for_each_add_tab_sources:
  "for_each add_tab_sources ts hs = Inr hs' \<Longrightarrow>
     list_all is_obj ts
     \<and> set hs' = set hs \<union> set (map host_key (concat (map tab_sources ts)))
     \<and> (distinct hs \<longrightarrow> distinct hs')"
proof (induction ts arbitrary: hs)
  case Nil
  then show ?case by simp
next
  case (Cons t ts)
  from Cons.prems obtain h1 where 1: "add_tab_sources t hs = Inr h1"
    and 2: "for_each add_tab_sources ts h1 = Inr hs'"
    by (auto split: sum.splits)
  from add_tab_sources_Inr [OF 1] Cons.IH [OF 2] show ?case
    by auto
qed

lemma host_set_Inr:
  assumes "host_set m = Inr hs"
  shows "distinct hs \<and> set hs = source_ids m"
proof -
  from assms obtain x ts where g: "dict_get m ''tabs'' (JList []) = Inr x"
    and i: "py_iter x = Inr ts" and f: "for_each add_tab_sources ts [] = Inr hs"
    by (auto simp: host_set_def split: sum.splits)
  from for_each_add_tab_sources [OF f] have o: "list_all is_obj ts"
    and s: "set hs = set (map host_key (concat (map tab_sources ts)))" and d: "distinct hs"
    by simp_all
  have "items (field m ''tabs'') = ts"
    using g i o by (rule dict_get_items)
  then show ?thesis
    using s d by (simp add: source_ids_def)
qed

lemma collect_hosts_card:
  assumes "collect_hosts m = Inr n"
  shows "n = int (card (source_ids m))"
proof -
  from assms obtain hs where h: "host_set m = Inr hs" and n: "n = int (length hs)"
    by (auto simp: collect_hosts_def split: sum.splits)
  from host_set_Inr [OF h] have "card (source_ids m) = length hs"
    using distinct_card [of hs] by simp
  then show ?thesis by (simp add: n)
qed

text \<open>
  C5. Whenever \<^verbatim>\<open>score_day\<close> returns for a record whose \<^verbatim>\<open>hostCount\<close> is absent, cannot
  be read as an integer or reads as zero (\<^verbatim>\<open>safe_int\<close> gives 0 in each case), the host count
  it reports is the number of distinct source identifiers, the empty ones left out, in the
  source lists of all the tabs.
\<close>

theorem host_count_distinct_sources:
  assumes "score_day_w w m = Inr (s, dg)" and "safe_int (field m ''hostCount'') 0 = 0"
  shows "hostCount dg = int (card (source_ids m))"
proof -
  from assms(1) obtain c r t fp where
    c: "read_counts m = Inr c" and "rates_of c = Inr r" and "contributions w m c r = Inr t"
    and d: "dg = \<lparr> tabsTotal = tabs_total c, thinTabs = thin c, noUpdateTabs = empty_tabs c,
            rssErrors = rss c, aiStrictRate = ai_rate r, offTopicRate = off_rate r,
            dupRate = dup_rate r, hostCount = hosts c, freshnessPenalty = fp \<rparr>"
    by (rule score_day_w_Inr)
  have "collect_hosts m = Inr (hosts c)"
    using c assms(2) by (rule read_counts_Inr(5))
  then show ?thesis
    by (simp add: d collect_hosts_card)
qed

text \<open>Two tabs with the sources a.com, b.com, and a.com, an empty name: two hosts.\<close>

theorem host_count_distinct_sources_witness:
  "score_day_w W day_sources =
     Inr (43, \<lparr> tabsTotal = 0, thinTabs = 0, noUpdateTabs = 0, rssErrors = 0,
                aiStrictRate = 0, offTopicRate = 0, dupRate = 0, hostCount = 2,
                freshnessPenalty = 0 \<rparr>)
   \<and> safe_int (field day_sources ''hostCount'') 0 = 0
   \<and> source_ids day_sources = {JStr ''a.com'', JStr ''b.com''}
   \<and> card (source_ids day_sources) = 2"
proof -
  have e: "score_day_w W day_sources =
     Inr (43, \<lparr> tabsTotal = 0, thinTabs = 0, noUpdateTabs = 0, rssErrors = 0,
                aiStrictRate = 0, offTopicRate = 0, dupRate = 0, hostCount = 2,
                freshnessPenalty = 0 \<rparr>)"
    by code_simp
  have z: "safe_int (field day_sources ''hostCount'') 0 = 0"
    by (simp add: day_sources_def safe_int_def)
  have i: "source_ids day_sources = {JStr ''a.com'', JStr ''b.com''}"
    by (auto simp: day_sources_def source_ids_def tab_sources_def host_key_def)
  from host_count_distinct_sources [OF e z] e z i show ?thesis
    by simp
qed

section \<open>The summary of the days\<close>

lemma take_filter_prefix: "\<exists>k. filter P (take n xs) = take k (filter P xs)"
proof -
  have "filter P xs = filter P (take n xs) @ filter P (drop n xs)"
    by (metis append_take_drop_id filter_append)
  then have "filter P (take n xs) = take (length (filter P (take n xs))) (filter P xs)"
    by simp
  then show ?thesis ..
qed

text \<open>
  C6. The worst days are the first \<open>n\<close> of the rows sorted by score, lowest first, with a
  stable sort: the sorted rows are the same rows, in the order of their scores, and the rows
  of one score stand among them, and among the worst days, in the order they had. \<^verbatim>\<open>main\<close>
  takes the rows in the order of their dates and 3 for \<open>n\<close>. Of four days with the scores 10,
  90, 10, 50 the two worst are the first, then the third.
\<close>

theorem worst_days_stable:
  "worst_days n rows = take n (sort_key score rows)
   \<and> sorted (map score (sort_key score rows))
   \<and> length (sort_key score rows) = length rows
   \<and> set (sort_key score rows) = set rows
   \<and> (\<forall>v. filter (\<lambda>r. score r = v) (sort_key score rows) = filter (\<lambda>r. score r = v) rows)
   \<and> (\<forall>v. \<exists>k. filter (\<lambda>r. score r = v) (worst_days n rows)
                 = take k (filter (\<lambda>r. score r = v) rows))
   \<and> (rows \<noteq> [] \<longrightarrow> worst (summarise rows) = worst_days 3 (sort_key date rows))
   \<and> worst_days 2 four_days = [day ''2024-01-01'' 10, day ''2024-01-03'' 10]"
proof (intro conjI allI impI)
  show "worst_days n rows = take n (sort_key score rows)"
    by (simp add: worst_days_def)
  show "sorted (map score (sort_key score rows))"
    by simp
  show "length (sort_key score rows) = length rows"
    by simp
  show "set (sort_key score rows) = set rows"
    by simp
  show "filter (\<lambda>r. score r = v) (sort_key score rows) = filter (\<lambda>r. score r = v) rows" for v
    by (rule sort_key_stable)
  show "\<exists>k. filter (\<lambda>r. score r = v) (worst_days n rows)
                 = take k (filter (\<lambda>r. score r = v) rows)" for v
    using take_filter_prefix [of "\<lambda>r. score r = v" n "sort_key score rows"]
    by (simp add: worst_days_def sort_key_stable)
  show "worst (summarise rows) = worst_days 3 (sort_key date rows)" if "rows \<noteq> []"
    using that by (simp add: summarise_def Let_def)
  show "worst_days 2 four_days = [day ''2024-01-01'' 10, day ''2024-01-03'' 10]"
    by code_simp
qed

text \<open>The four days, given latest first: \<^verbatim>\<open>main\<close> prints the first, the third, the fourth.\<close>

theorem worst_days_stable_witness:
  "rev four_days \<noteq> []
   \<and> sort_key date (rev four_days) = four_days
   \<and> worst (summarise (rev four_days)) =
       [day ''2024-01-01'' 10, day ''2024-01-03'' 10, day ''2024-01-04'' 50]"
proof -
  have n: "rev four_days \<noteq> []"
    by (simp add: four_days_def)
  have d: "sort_key date (rev four_days) = four_days"
    by code_simp
  have w: "worst_days 3 four_days =
      [day ''2024-01-01'' 10, day ''2024-01-03'' 10, day ''2024-01-04'' 50]"
    by code_simp
  from worst_days_stable [of 3 "rev four_days"] n
  have "worst (summarise (rev four_days)) = worst_days 3 (sort_key date (rev four_days))"
    by blast
  with n d w show ?thesis by simp
qed

text \<open>
  C7. With no row, \<^verbatim>\<open>main\<close> prints that there are no metrics files and stops: that outcome
  is not a summary, so it has no latest day, no average and no worst days, and it is the
  outcome exactly when the loop over the files leaves no row.
\<close>

theorem summarise_no_metrics:
  "summarise [] = NoMetrics
   \<and> (summarise rows = NoMetrics) = (rows = [])
   \<and> (main found = Inr NoMetrics) = (for_each add_row (sort_key fst found) [] = Inr [])"
  by (auto simp: summarise_def main_def Let_def split: sum.splits)

text \<open>
  A file that cannot be read, one whose name holds no date and one that holds an empty
  object: no row. One day with the score 100: a summary.
\<close>

theorem summarise_no_metrics_witness:
  "main [(''/d/metrics-2024-01-02.json'', None), (''/d/metrics-.json'', Some day_full),
         (''/d/metrics-2024-01-01.json'', Some (JObj []))] = Inr NoMetrics
   \<and> summarise [day ''2024-01-01'' 0] =
       Summary (day ''2024-01-01'' 0) 0 [day ''2024-01-01'' 0] [day ''2024-01-01'' 0]"
proof -
  let ?found = "[(''/d/metrics-2024-01-02.json'', None), (''/d/metrics-.json'', Some day_full),
         (''/d/metrics-2024-01-01.json'', Some (JObj []))]"
  have "for_each add_row (sort_key fst ?found) [] = Inr []"
    by code_simp
  with summarise_no_metrics [of "[]" ?found] have "main ?found = Inr NoMetrics"
    by simp
  moreover have "summarise [day ''2024-01-01'' 0] =
       Summary (day ''2024-01-01'' 0) 0 [day ''2024-01-01'' 0] [day ''2024-01-01'' 0]"
    by code_simp
  ultimately show ?thesis by simp
qed

text \<open>
  C8. For rows that are not empty and \<open>k\<close> at least 1: with fewer than \<open>k\<close> rows the trailing
  average is the mean of all the scores, with \<open>k\<close> rows or more it is the mean of the last
  \<open>k\<close> scores. \<^verbatim>\<open>main\<close> takes the rows in the order of their dates and 7 for \<open>k\<close>.
\<close>

theorem trailing_avg_mean:
  assumes "rows \<noteq> []" and "0 < k"
  shows "(length rows < k \<longrightarrow>
            trailing_avg k rows = sum_list (map score rows) / real (length rows))
       \<and> (k \<le> length rows \<longrightarrow>
            trailing_avg k rows
              = sum_list (map score (drop (length rows - k) rows)) / real k)
       \<and> score7 (summarise rows) = trailing_avg 7 (sort_key date rows)"
proof (intro conjI impI)
  assume "length rows < k"
  then show "trailing_avg k rows = sum_list (map score rows) / real (length rows)"
    using assms by (simp add: trailing_avg_def last_rows_def avg_def)
next
  assume k: "k \<le> length rows"
  have "\<not> length rows \<le> length rows - k"
    using assms by (cases rows) auto
  with k show "trailing_avg k rows = sum_list (map score (drop (length rows - k) rows)) / real k"
    using assms by (simp add: trailing_avg_def last_rows_def avg_def)
next
  show "score7 (summarise rows) = trailing_avg 7 (sort_key date rows)"
    using assms by (simp add: summarise_def Let_def)
qed

text \<open>
  Four days with the scores 10, 90, 10, 50: the average of the last seven is that of all
  four, 40; the average of the last two is 30.
\<close>

theorem trailing_avg_mean_witness:
  "four_days \<noteq> [] \<and> length four_days = 4
   \<and> trailing_avg 7 four_days = 40 \<and> score7 (summarise four_days) = 40
   \<and> trailing_avg 2 four_days = 30"
proof -
  have n: "four_days \<noteq> []" and l: "length four_days = 4"
    by (simp_all add: four_days_def)
  have d: "sort_key date four_days = four_days"
    by code_simp
  have a: "sum_list (map score four_days) = 160"
    and b: "sum_list (map score (drop 2 four_days)) = 60"
    by (simp_all add: four_days_def day_def)
  from trailing_avg_mean [OF n, of 7] l a d
  have 7: "trailing_avg 7 four_days = 40" "score7 (summarise four_days) = 40"
    by simp_all
  from trailing_avg_mean [OF n, of 2] l b
  have 2: "trailing_avg 2 four_days = 30"
    by simp
  from n l 7 2 show ?thesis by simp
qed

section \<open>Run success and duplicates\<close>

lemma score_terms_Inr:
  assumes "score_terms w m = Inr t"
  obtains c r where "read_counts m = Inr c" "rates_of c = Inr r"
    "contributions w m c r = Inr t"
  using assms unfolding score_terms_def and_then_Inr by blast

lemma score_day_w_terms:
  assumes "score_day_w w m = Inr (s, d)"
  shows "\<exists>t. score_terms w m = Inr t \<and> s = round2 (sum_terms t)"
proof -
  from assms obtain c r t fp where
    "read_counts m = Inr c" "rates_of c = Inr r" "contributions w m c r = Inr t"
    "freshness_penalty m = Inr fp" "s = round2 (sum_terms t)"
    by (rule score_day_w_Inr)
  then show ?thesis
    by (simp add: score_terms_def)
qed

text \<open>
  C9. The term for run success looks at the truth value of the field \<^verbatim>\<open>runSuccess\<close> as it
  stands in the record: the whole weight when the value is truthy (a text that is not empty,
  such as "false", a number other than zero, true), and 0 when it is not (the field absent,
  null, false, 0, the empty text).
\<close>

theorem run_success_truthiness:
  assumes "score_terms w m = Inr t"
  shows "s_run t = (if truthy (field m ''runSuccess'') then run_success w else 0)"
proof -
  from assms obtain c r where "contributions w m c r = Inr t"
    by (rule score_terms_Inr)
  then obtain ok where ok: "dict_get m ''runSuccess'' JNull = Inr ok"
    and s: "s_run t = run_success w * (if truthy ok then 1 else 0)"
    by (rule contributions_Inr)
  from ok have "ok = field m ''runSuccess''"
    by (cases m) simp_all
  then show ?thesis by (simp add: s)
qed

text \<open>
  A record that says "false" as a text gets the 12 points and scores 53; one that says false
  scores 41.
\<close>

theorem run_success_truthiness_witness:
  "score_terms W day_said_false =
     Inr \<lparr> s_run = 12, s_tabs = 0, s_rss = 10, s_fresh = 6, s_ai = 0, s_off = 15,
           s_dup = 10, s_hosts = 0 \<rparr>
   \<and> truthy (field day_said_false ''runSuccess'')
   \<and> run_success W = 12
   \<and> fst (projr (score_day day_said_false)) = 53
   \<and> fst (projr (score_day (JObj [(''runSuccess'', JBool False)]))) = 41"
proof -
  let ?t = "\<lparr> s_run = 12, s_tabs = 0, s_rss = 10, s_fresh = 6, s_ai = 0, s_off = 15,
           s_dup = 10, s_hosts = 0 \<rparr>"
  have e: "score_terms W day_said_false = Inr ?t"
    by code_simp
  have t: "truthy (field day_said_false ''runSuccess'')"
    by (simp add: day_said_false_def)
  have s: "fst (projr (score_day day_said_false)) = 53"
    "fst (projr (score_day (JObj [(''runSuccess'', JBool False)]))) = 41"
    by code_simp+
  from run_success_truthiness [OF e] t have "run_success W = 12"
    by simp
  with e t s show ?thesis by simp
qed

text \<open>
  C10. The \<^verbatim>\<open>dupRate\<close> that \<^verbatim>\<open>score_day\<close> reports is the quotient itself, \<^verbatim>\<open>dupCount\<close> by
  the larger of 1 and \<^verbatim>\<open>pickedItemsTotal\<close>, with no clamp: with no picked item and five
  duplicates it is 5. The term for duplicates clamps it, and lies between 0 and its weight
  when the weight is not negative.
\<close>

theorem dup_rate_unclamped:
  "(score_terms w m = Inr t \<and> 0 \<le> duplication_penalty w \<longrightarrow>
      0 \<le> s_dup t \<and> s_dup t \<le> duplication_penalty w)
   \<and> (score_day_w w m = Inr (s, dg) \<longrightarrow>
        dupRate dg = real_of_int (safe_int (field m ''dupCount'') 0)
                       / real_of_int (max 1 (safe_int (field m ''pickedItemsTotal'') 0)))
   \<and> score_day day_duplicates =
       Inr (31, \<lparr> tabsTotal = 0, thinTabs = 0, noUpdateTabs = 0, rssErrors = 0,
                  aiStrictRate = 0, offTopicRate = 0, dupRate = 5, hostCount = 0,
                  freshnessPenalty = 0 \<rparr>)"
proof (intro conjI impI)
  assume a: "score_terms w m = Inr t \<and> 0 \<le> duplication_penalty w"
  then obtain c r where "contributions w m c r = Inr t"
    by (blast elim: score_terms_Inr)
  then obtain f: "s_dup t = duplication_penalty w * (1 - clamp (dup_rate r / MAX_DUP_RATE) 0 1)"
    by (blast elim: contributions_Inr)
  show "0 \<le> s_dup t" "s_dup t \<le> duplication_penalty w"
    unfolding f using a clamp_unit_interval [of "dup_rate r / MAX_DUP_RATE"]
    by (simp_all add: weighted_counter)
next
  assume "score_day_w w m = Inr (s, dg)"
  then obtain c r t fp where
    c: "read_counts m = Inr c" and r: "rates_of c = Inr r"
    and "contributions w m c r = Inr t"
    and d: "dg = \<lparr> tabsTotal = tabs_total c, thinTabs = thin c, noUpdateTabs = empty_tabs c,
            rssErrors = rss c, aiStrictRate = ai_rate r, offTopicRate = off_rate r,
            dupRate = dup_rate r, hostCount = hosts c, freshnessPenalty = fp \<rparr>"
    by (rule score_day_w_Inr)
  have "dup_rate r = real_of_int (dup c) / real_of_int (max 1 (picked c))"
    using rates_of_Inr(3) [OF r] by (intro pct_positive) auto
  then show "dupRate dg = real_of_int (safe_int (field m ''dupCount'') 0)
                       / real_of_int (max 1 (safe_int (field m ''pickedItemsTotal'') 0))"
    by (simp add: d read_counts_Inr(1,4) [OF c])
next
  show "score_day day_duplicates =
       Inr (31, \<lparr> tabsTotal = 0, thinTabs = 0, noUpdateTabs = 0, rssErrors = 0,
                  aiStrictRate = 0, offTopicRate = 0, dupRate = 5, hostCount = 0,
                  freshnessPenalty = 0 \<rparr>)"
    by code_simp
qed

text \<open>Five duplicates among no picked items: the rate is 5, the term 0, the weight 10.\<close>

theorem dup_rate_unclamped_witness:
  "score_terms W day_duplicates =
     Inr \<lparr> s_run = 0, s_tabs = 0, s_rss = 10, s_fresh = 6, s_ai = 0, s_off = 15,
           s_dup = 0, s_hosts = 0 \<rparr>
   \<and> duplication_penalty W = 10
   \<and> dupRate (snd (projr (score_day_w W day_duplicates))) = 5"
proof -
  let ?t = "\<lparr> s_run = 0, s_tabs = 0, s_rss = 10, s_fresh = 6, s_ai = 0, s_off = 15,
           s_dup = 0, s_hosts = 0 \<rparr>"
  have e: "score_terms W day_duplicates = Inr ?t"
    by code_simp
  have w: "duplication_penalty W = 10"
    by (simp add: W_def)
  from dup_rate_unclamped [of W day_duplicates ?t] e w
  have "0 \<le> s_dup ?t \<and> s_dup ?t \<le> duplication_penalty W"
    by simp
  moreover have "dupRate (snd (projr (score_day_w W day_duplicates))) = 5"
    by code_simp
  ultimately show ?thesis using e w by simp
qed

end
